theory Spec2Isabelle
  imports Main "HOL-Library.Word"
begin

section \<open>JavaScript strings and values\<close>

text \<open>
  A JavaScript string is a sequence of UTF-16 code units. The regular expressions of
  \<^verbatim>\<open>api/clinical-programs.ts\<close> carry no \<^verbatim>\<open>u\<close> flag and \<^verbatim>\<open>trim\<close> works on code units, so a
  string is modelled as a list of 16-bit words. Property, field, table and header names are
  the ASCII identifiers written in the source and are kept as HOL strings.
\<close>

type_synonym jsstring = "16 word list"

definition js :: "string \<Rightarrow> jsstring" where
  "js s = map of_char s"

definition quote :: "16 word" where
  "quote = 0x27"

definition NL :: "16 word" where
  "NL = 0x0A"

definition CR :: "16 word" where
  "CR = 0x0D"

text \<open>
  The code units matched by \<^verbatim>\<open>\s\<close> and stripped by \<^verbatim>\<open>String.prototype.trim\<close>: ECMAScript's
  WhiteSpace and LineTerminator productions.
\<close>

definition isWhiteSpace :: "16 word \<Rightarrow> bool" where
  "isWhiteSpace c \<longleftrightarrow>
     c = 0x09 \<or> c = 0x0A \<or> c = 0x0B \<or> c = 0x0C \<or> c = 0x0D \<or> c = 0x20 \<or> c = 0xA0 \<or>
     c = 0x1680 \<or> (0x2000 \<le> c \<and> c \<le> 0x200A) \<or> c = 0x2028 \<or> c = 0x2029 \<or>
     c = 0x202F \<or> c = 0x205F \<or> c = 0x3000 \<or> c = 0xFEFF"

definition trim :: "jsstring \<Rightarrow> jsstring" where
  "trim s = rev (dropWhile isWhiteSpace (rev (dropWhile isWhiteSpace s)))"

text \<open>
  The values a record field, an attachment or a response property can hold. Numbers are
  only ever tested for truthiness and passed through, so an integer stands for them.
  An object is its list of own properties.
\<close>

datatype jsval =
    JUndefined
  | JNull
  | JBool bool
  | JNum int
  | JStr jsstring
  | JArr "jsval list"
  | JObj "(string \<times> jsval) list"

fun truthy :: "jsval \<Rightarrow> bool" where
  "truthy JUndefined = False"
| "truthy JNull = False"
| "truthy (JBool b) = b"
| "truthy (JNum n) = (n \<noteq> 0)"
| "truthy (JStr s) = (s \<noteq> [])"
| "truthy (JArr _) = True"
| "truthy (JObj _) = True"

text \<open>\<^verbatim>\<open>a || b\<close>\<close>

definition js_or :: "jsval \<Rightarrow> jsval \<Rightarrow> jsval" where
  "js_or a b = (if truthy a then a else b)"

text \<open>\<^verbatim>\<open>typeof v === 'string'\<close>\<close>

fun is_string :: "jsval \<Rightarrow> bool" where
  "is_string (JStr _) = True"
| "is_string _ = False"

text \<open>\<^verbatim>\<open>Array.isArray(v)\<close>\<close>

fun isArray :: "jsval \<Rightarrow> bool" where
  "isArray (JArr _) = True"
| "isArray _ = False"

text \<open>
  What the handler's \<^verbatim>\<open>try\<close> block can throw: a \<^verbatim>\<open>TypeError\<close> of the runtime, or the
  rejection reason of a store call.
\<close>

datatype exn = TypeError | Rejected jsval

section \<open>Escaping the slug for a filter formula\<close>

text \<open>
  \<^verbatim>\<open>value.replace(/'/g, "''")\<close>: every single quote is replaced by two; the replacement text
  holds no \<^verbatim>\<open>$\<close> pattern, so it is inserted as it is.
\<close>

fun escapeFormulaString :: "jsstring \<Rightarrow> jsstring" where
  "escapeFormulaString [] = []"
| "escapeFormulaString (c # cs) =
     (if c = quote then [quote, quote] else [c]) @ escapeFormulaString cs"



section \<open>Segmenting the overview text\<close>

text \<open>
  The separator \<^verbatim>\<open>/\n\s*\n|\r\n\r\n|\n/\<close> matched at the head of the text, as the regular
  expression engine does it: the alternatives in order, \<^verbatim>\<open>\s*\<close> greedy with backtracking.
  Each function returns the text after the match.
\<close>

text \<open>\<^verbatim>\<open>\s*\n\<close>: take the white space first, give it back only when no newline follows.\<close>

fun ws_star_nl :: "jsstring \<Rightarrow> jsstring option" where
  "ws_star_nl [] = None"
| "ws_star_nl (c # cs) =
     (if isWhiteSpace c then
        (case ws_star_nl cs of
           Some r \<Rightarrow> Some r
         | None \<Rightarrow> if c = NL then Some cs else None)
      else if c = NL then Some cs else None)"

definition alt_blank_line :: "jsstring \<Rightarrow> jsstring option" where
  "alt_blank_line s = (case s of [] \<Rightarrow> None | c # cs \<Rightarrow> if c = NL then ws_star_nl cs else None)"

definition alt_crlf_crlf :: "jsstring \<Rightarrow> jsstring option" where
  "alt_crlf_crlf s = (if take 4 s = [CR, NL, CR, NL] then Some (drop 4 s) else None)"

definition alt_newline :: "jsstring \<Rightarrow> jsstring option" where
  "alt_newline s = (case s of [] \<Rightarrow> None | c # cs \<Rightarrow> if c = NL then Some cs else None)"

definition match_separator :: "jsstring \<Rightarrow> jsstring option" where
  "match_separator s =
     (case alt_blank_line s of
        Some r \<Rightarrow> Some r
      | None \<Rightarrow> (case alt_crlf_crlf s of Some r \<Rightarrow> Some r | None \<Rightarrow> alt_newline s))"

text \<open>
  \<^verbatim>\<open>String.prototype.split\<close> with that separator: the text is scanned from the left; where
  the separator matches, the piece read so far is closed and the scan goes on after the
  match; elsewhere the code unit joins the piece. The separator never matches the empty
  string, so the empty text gives the one piece \<^verbatim>\<open>""\<close>.
\<close>

function split_from :: "jsstring \<Rightarrow> jsstring \<Rightarrow> jsstring list" where
  "split_from piece [] = [piece]"
| "split_from piece (c # cs) =
     (case match_separator (c # cs) of
        Some r \<Rightarrow> piece # split_from [] r
      | None \<Rightarrow> split_from (piece @ [c]) cs)"
  by pat_completeness auto
termination
proof (relation "measure (\<lambda>(piece, s). length s)")
  have ws: "ws_star_nl s = Some r \<Longrightarrow> length r < length s" for s r
    by (induction s arbitrary: r) (fastforce split: if_splits option.splits)+
  have sep: "match_separator s = Some r \<Longrightarrow> length r < length s" for s r
    by (auto simp: match_separator_def alt_blank_line_def alt_crlf_crlf_def alt_newline_def
        split: option.splits list.splits if_splits dest: ws)
  show "wf (measure (\<lambda>(piece, s). length s))"
    by simp
  show "((piece @ [c], cs), (piece, c # cs)) \<in> measure (\<lambda>(piece, s). length s)"
    for piece :: jsstring and c cs
    by simp
  show "(([], r), (piece, c # cs)) \<in> measure (\<lambda>(piece, s). length s)"
    if "match_separator (c # cs) = Some r" for piece :: jsstring and c cs r
    using sep [OF that] by simp
qed

definition split_paragraphs :: "jsstring \<Rightarrow> jsstring list" where
  "split_paragraphs s = split_from [] s"

text \<open>
  \<^verbatim>\<open>overviewRaw ? overviewRaw.split(...).map((s) => s.trim()).filter(Boolean) : []\<close> for a
  string \<^verbatim>\<open>overviewRaw\<close>.
\<close>

definition segment :: "jsstring \<Rightarrow> jsstring list" where
  "segment overviewRaw =
     (if overviewRaw \<noteq> [] then filter (\<lambda>s. s \<noteq> []) (map trim (split_paragraphs overviewRaw))
      else [])"

text \<open>
  For comparison with the separator of the source: the text cut at every newline and
  nowhere else, and the paragraphs of a list of pieces, each piece trimmed and the empty
  ones dropped.
\<close>

fun split_at_newlines :: "jsstring \<Rightarrow> jsstring \<Rightarrow> jsstring list" where
  "split_at_newlines piece [] = [piece]"
| "split_at_newlines piece (c # cs) =
     (if c = NL then piece # split_at_newlines [] cs else split_at_newlines (piece @ [c]) cs)"

definition paragraphs_of :: "jsstring list \<Rightarrow> jsstring list" where
  "paragraphs_of pieces = filter (\<lambda>s. s \<noteq> []) (map trim pieces)"

section \<open>Resolving the url of a child record\<close>

text \<open>
  \<^verbatim>\<open>v.url\<close> throws a \<^verbatim>\<open>TypeError\<close> on \<^verbatim>\<open>undefined\<close> and \<^verbatim>\<open>null\<close>; an object gives its own
  property, every other value has no such property. \<^verbatim>\<open>v?.url\<close> is \<^verbatim>\<open>undefined\<close> where
  \<^verbatim>\<open>v.url\<close> would throw.
\<close>

fun get_url :: "jsval \<Rightarrow> exn + jsval" where
  "get_url JUndefined = Inl TypeError"
| "get_url JNull = Inl TypeError"
| "get_url (JObj props) = Inr (case map_of props ''url'' of None \<Rightarrow> JUndefined | Some u \<Rightarrow> u)"
| "get_url _ = Inr JUndefined"

fun get_url_optional :: "jsval \<Rightarrow> exn + jsval" where
  "get_url_optional JUndefined = Inr JUndefined"
| "get_url_optional JNull = Inr JUndefined"
| "get_url_optional v = get_url v"

text \<open>
  \<^verbatim>\<open>const list = attachments || [];\<close>
  \<^verbatim>\<open>if (Array.isArray(list) && list.length > 0 && list[0]?.url) return list[0].url;\<close>
  \<^verbatim>\<open>return undefined;\<close>
\<close>

definition firstAttachmentUrl :: "jsval \<Rightarrow> exn + jsval" where
  "firstAttachmentUrl attachments =
     (case js_or attachments (JArr []) of
        JArr (first # _) \<Rightarrow>
          (case get_url_optional first of
             Inl e \<Rightarrow> Inl e
           | Inr u \<Rightarrow> if truthy u then get_url first else Inr JUndefined)
      | _ \<Rightarrow> Inr JUndefined)"

text \<open>
  \<^verbatim>\<open>(typeof link === 'string' ? link : undefined) || firstAttachmentUrl(file) || undefined\<close>,
  the expression each of the four child mappings uses for its url.
\<close>

definition resolveUrl :: "jsval \<Rightarrow> jsval \<Rightarrow> exn + jsval" where
  "resolveUrl link file =
     (let explicit = (if is_string link then link else JUndefined) in
      if truthy explicit then Inr explicit
      else (case firstAttachmentUrl file of
              Inl e \<Rightarrow> Inl e
            | Inr u \<Rightarrow> Inr (js_or u JUndefined)))"

section \<open>The record store\<close>

text \<open>
  A record of the store as the client library hands it over: its \<^verbatim>\<open>id\<close> and its \<^verbatim>\<open>fields\<close>.
  \<^verbatim>\<open>r.get(name)\<close> and \<^verbatim>\<open>r.fields[name]\<close> both read a field; a field the record does not hold
  reads as \<^verbatim>\<open>undefined\<close>.
\<close>

record airtable_record =
  record_id :: jsstring
  record_fields :: "(string \<times> jsval) list"

definition get :: "airtable_record \<Rightarrow> string \<Rightarrow> jsval" where
  "get r name = (case map_of (record_fields r) name of None \<Rightarrow> JUndefined | Some v \<Rightarrow> v)"

text \<open>
  A call of the store: \<^verbatim>\<open>base(table).select(params)\<close>, ended by \<^verbatim>\<open>.all()\<close>, which resolves
  to the records of every page of the selection, or by \<^verbatim>\<open>.firstPage()\<close>, which resolves to
  those of its first page.
\<close>

datatype direction = Asc | Desc

datatype fetch = AllPages | FirstPage

record select_params =
  filterByFormula :: "jsstring option"
  select_fields :: "string list option"
  sort_by :: "(string \<times> direction) list option"
  pageSize :: "nat option"
  maxRecords :: "nat option"

record store_call =
  table :: string
  params :: select_params
  fetch :: fetch

text \<open>
  The client library and the store behind it are not part of the repository: the store is
  a parameter of the model, the answer it gives to each call, either the records the
  promise resolves to or the reason it is rejected with. A call whose promise never
  settles is outside the model.
\<close>

type_synonym store = "store_call \<Rightarrow> jsval + airtable_record list"

definition listCall :: store_call where
  "listCall =
     \<lparr>table = ''ClinicalPrograms'',
      params = \<lparr>filterByFormula = None,
                select_fields = Some [''programName'', ''programDescription'', ''programSlug''],
                sort_by = None, pageSize = Some 50, maxRecords = None\<rparr>,
      fetch = AllPages\<rparr>"

definition parentFormula :: "jsstring \<Rightarrow> jsstring" where
  "parentFormula esc = js ''{programSlug} = '' @ [quote] @ esc @ [quote]"

definition childFormula :: "jsstring \<Rightarrow> jsstring" where
  "childFormula esc = [quote] @ esc @ [quote] @ js '' IN {programSlug}''"

definition parentCall :: "jsstring \<Rightarrow> store_call" where
  "parentCall esc =
     \<lparr>table = ''ClinicalPrograms'',
      params = \<lparr>filterByFormula = Some (parentFormula esc), select_fields = None,
                sort_by = None, pageSize = None, maxRecords = Some 1\<rparr>,
      fetch = FirstPage\<rparr>"

definition modulesCall :: "jsstring \<Rightarrow> store_call" where
  "modulesCall esc =
     \<lparr>table = ''TrainingModules'',
      params = \<lparr>filterByFormula = Some (childFormula esc),
                select_fields =
                  Some [''moduleName'', ''moduleLength'', ''moduleFile'', ''moduleLink'', ''sortOrder''],
                sort_by = Some [(''sortOrder'', Asc)], pageSize = Some 100, maxRecords = None\<rparr>,
      fetch = AllPages\<rparr>"

definition manualsCall :: "jsstring \<Rightarrow> store_call" where
  "manualsCall esc =
     \<lparr>table = ''ProtocolManuals'',
      params = \<lparr>filterByFormula = Some (childFormula esc),
                select_fields = Some [''protocolName'', ''protocolFile'', ''fileLink''],
                sort_by = None, pageSize = Some 100, maxRecords = None\<rparr>,
      fetch = AllPages\<rparr>"

definition formsCall :: "jsstring \<Rightarrow> store_call" where
  "formsCall esc =
     \<lparr>table = ''DocumentationForms'',
      params = \<lparr>filterByFormula = Some (childFormula esc),
                select_fields = Some [''formName'', ''formFile'', ''formCategory'', ''formLink''],
                sort_by = None, pageSize = Some 200, maxRecords = None\<rparr>,
      fetch = AllPages\<rparr>"

definition resourcesCall :: "jsstring \<Rightarrow> store_call" where
  "resourcesCall esc =
     \<lparr>table = ''AdditionalResources'',
      params = \<lparr>filterByFormula = Some (childFormula esc),
                select_fields = Some [''resourceName'', ''resourceFile'', ''resourceLink''],
                sort_by = None, pageSize = Some 100, maxRecords = None\<rparr>,
      fetch = AllPages\<rparr>"

definition childCalls :: "jsstring \<Rightarrow> store_call list" where
  "childCalls esc = [modulesCall esc, manualsCall esc, formsCall esc, resourcesCall esc]"

section \<open>Mapping records to response items\<close>

definition listItem :: "airtable_record \<Rightarrow> jsval" where
  "listItem r =
     JObj [(''slug'', js_or (get r ''programSlug'') (JStr [])),
           (''name'', js_or (get r ''programName'') (JStr [])),
           (''description'', js_or (get r ''programDescription'') (JStr []))]"

definition moduleItem :: "airtable_record \<Rightarrow> exn + jsval" where
  "moduleItem m =
     (case resolveUrl (get m ''moduleLink'') (get m ''moduleFile'') of
        Inl e \<Rightarrow> Inl e
      | Inr u \<Rightarrow>
          Inr (JObj [(''id'', JStr (record_id m)),
                     (''name'', js_or (get m ''moduleName'') (JStr [])),
                     (''duration'', js_or (get m ''moduleLength'') JUndefined),
                     (''description'', JUndefined),
                     (''url'', u)]))"

definition manualItem :: "airtable_record \<Rightarrow> exn + jsval" where
  "manualItem doc =
     (case resolveUrl (get doc ''fileLink'') (get doc ''protocolFile'') of
        Inl e \<Rightarrow> Inl e
      | Inr u \<Rightarrow>
          Inr (JObj [(''id'', JStr (record_id doc)),
                     (''name'', js_or (get doc ''protocolName'') (JStr [])),
                     (''fileUrl'', u)]))"

definition formItem :: "airtable_record \<Rightarrow> exn + jsval" where
  "formItem f =
     (case resolveUrl (get f ''formLink'') (get f ''formFile'') of
        Inl e \<Rightarrow> Inl e
      | Inr u \<Rightarrow>
          Inr (JObj [(''id'', JStr (record_id f)),
                     (''name'', js_or (get f ''formName'') (JStr [])),
                     (''category'', js_or (get f ''formCategory'') JUndefined),
                     (''fileUrl'', u)]))"

definition resourceItem :: "airtable_record \<Rightarrow> exn + jsval" where
  "resourceItem r =
     (case resolveUrl (get r ''resourceLink'') (get r ''resourceFile'') of
        Inl e \<Rightarrow> Inl e
      | Inr u \<Rightarrow>
          Inr (JObj [(''id'', JStr (record_id r)),
                     (''name'', js_or (get r ''resourceName'') (JStr [])),
                     (''type'', JUndefined),
                     (''url'', u)]))"

text \<open>\<^verbatim>\<open>records.map(f)\<close> for an \<open>f\<close> that may throw: the first exception ends the mapping.\<close>

fun map_throwing :: "('a \<Rightarrow> exn + 'b) \<Rightarrow> 'a list \<Rightarrow> exn + 'b list" where
  "map_throwing f [] = Inr []"
| "map_throwing f (x # xs) =
     (case f x of
        Inl e \<Rightarrow> Inl e
      | Inr y \<Rightarrow> (case map_throwing f xs of Inl e \<Rightarrow> Inl e | Inr ys \<Rightarrow> Inr (y # ys)))"

section \<open>The request handler\<close>

text \<open>
  The two credentials of \<^verbatim>\<open>process.env\<close>; a variable that is not set reads as \<^verbatim>\<open>undefined\<close>.
\<close>

record env =
  AIRTABLE_API_KEY :: "jsstring option"
  AIRTABLE_BASE_ID :: "jsstring option"

text \<open>\<^verbatim>\<open>!v\<close> for a variable of the environment: not set, or the empty string.\<close>

definition unset :: "jsstring option \<Rightarrow> bool" where
  "unset v = (case v of None \<Rightarrow> True | Some s \<Rightarrow> s = [])"

text \<open>
  What the handler reads of a request: its \<^verbatim>\<open>method\<close>, and the search parameters that
  \<^verbatim>\<open>new URL(req.url || '', 'http://localhost')\<close> decodes, in their order; \<open>None\<close> is a url the
  \<^verbatim>\<open>URL\<close> constructor throws on.
\<close>

record request =
  http_method :: "string option"
  searchParams :: "(jsstring \<times> jsstring) list option"

text \<open>
  \<^verbatim>\<open>url.searchParams.forEach((v, k) => (params[k] = v))\<close>: a later parameter overwrites an
  earlier one of the same name. An assignment of a string to \<^verbatim>\<open>params['__proto__']\<close> leaves
  the object as it is.
\<close>

definition getQuery :: "request \<Rightarrow> exn + (jsstring \<Rightarrow> jsstring option)" where
  "getQuery req =
     (case searchParams req of
        None \<Rightarrow> Inl TypeError
      | Some ps \<Rightarrow>
          Inr (fold (\<lambda>(k, v) params. if k = js ''__proto__'' then params else params(k \<mapsto> v))
                 ps Map.empty))"

text \<open>
  The response as the handler leaves it: the status code, the headers set, and the value
  whose \<^verbatim>\<open>JSON.stringify\<close> text is the body.
\<close>

record response =
  statusCode :: nat
  headers :: "(string \<times> string) list"
  body :: jsval

text \<open>
  A run of the handler: the response, the store calls issued, in order, and the
  exceptions of which one reached the \<^verbatim>\<open>catch\<close> block (none when the list is empty). The
  \<^verbatim>\<open>catch\<close> block writes the exception's message to the server's console.
\<close>

record outcome =
  response :: response
  calls :: "store_call list"
  caught :: "exn list"

definition error_body :: "string \<Rightarrow> jsval" where
  "error_body msg = JObj [(''error'', JStr (js msg))]"

definition json_header :: "string \<times> string" where
  "json_header = (''Content-Type'', ''application/json'')"

definition cache_header :: "string \<times> string" where
  "cache_header = (''Cache-Control'', ''s-maxage=60, stale-while-revalidate=300'')"

definition methodNotAllowed :: response where
  "methodNotAllowed =
     \<lparr>statusCode = 405, headers = [json_header], body = error_body ''Method Not Allowed''\<rparr>"

definition notConfigured :: response where
  "notConfigured =
     \<lparr>statusCode = 500, headers = [json_header],
      body = error_body
        ''Airtable is not configured. Set AIRTABLE_API_KEY and AIRTABLE_BASE_ID in your Vercel project.''\<rparr>"

definition notFound :: response where
  "notFound =
     \<lparr>statusCode = 404, headers = [json_header], body = error_body ''Program not found''\<rparr>"

definition internalServerError :: response where
  "internalServerError =
     \<lparr>statusCode = 500, headers = [json_header], body = error_body ''Internal Server Error''\<rparr>"

definition ok :: "jsval \<Rightarrow> response" where
  "ok v = \<lparr>statusCode = 200, headers = [json_header, cache_header], body = v\<rparr>"

text \<open>The listing path: one call, every record mapped to an item.\<close>

definition listing :: "store \<Rightarrow> (exn list + response) \<times> store_call list" where
  "listing store =
     (case store listCall of
        Inl reason \<Rightarrow> (Inl [Rejected reason], [listCall])
      | Inr records \<Rightarrow> (Inr (ok (JObj [(''items'', JArr (map listItem records))])), [listCall]))"

text \<open>
  \<^verbatim>\<open>(p.get('programOverview') as string) || ''\<close>, then the segmentation; a truthy value
  that is no string has no \<^verbatim>\<open>split\<close> method, and the call throws.
\<close>

definition overviewOf :: "airtable_record \<Rightarrow> exn + jsstring list" where
  "overviewOf p =
     (case js_or (get p ''programOverview'') (JStr []) of
        JStr overviewRaw \<Rightarrow> Inr (segment overviewRaw)
      | _ \<Rightarrow> Inl TypeError)"

text \<open>
  \<^verbatim>\<open>Promise.all\<close> over the answers of calls already issued: the results when every call
  resolved; otherwise it is rejected with the reason of the call that was rejected first
  in time, which is one of the reasons listed.
\<close>

definition rejections :: "(jsval + 'a) list \<Rightarrow> exn list" where
  "rejections answers = concat (map (\<lambda>a. case a of Inl reason \<Rightarrow> [Rejected reason] | Inr _ \<Rightarrow> []) answers)"

text \<open>The object literal \<^verbatim>\<open>detail\<close>; its properties are evaluated in the order written.\<close>

definition assemble ::
  "jsstring \<Rightarrow> airtable_record \<Rightarrow> jsstring list \<Rightarrow> airtable_record list \<Rightarrow>
   airtable_record list \<Rightarrow> airtable_record list \<Rightarrow> airtable_record list \<Rightarrow> exn + jsval" where
  "assemble slug p overview modules manuals forms resources =
     (case map_throwing moduleItem modules of
        Inl e \<Rightarrow> Inl e
      | Inr ms \<Rightarrow>
     (case map_throwing manualItem manuals of
        Inl e \<Rightarrow> Inl e
      | Inr docs \<Rightarrow>
     (case map_throwing formItem forms of
        Inl e \<Rightarrow> Inl e
      | Inr fs \<Rightarrow>
     (case map_throwing resourceItem resources of
        Inl e \<Rightarrow> Inl e
      | Inr rs \<Rightarrow>
          Inr (JObj [(''slug'', JStr slug),
                     (''title'', js_or (get p ''programName'') (JStr [])),
                     (''subtitle'', js_or (get p ''programDescription'') (JStr [])),
                     (''image'', JUndefined),
                     (''overview'', JArr (map JStr overview)),
                     (''modules'', JArr ms),
                     (''manuals'', JArr docs),
                     (''forms'', JArr fs),
                     (''resources'', JArr rs)])))))"

text \<open>
  The detail path: the parent lookup; without a parent record the answer is 404;
  otherwise the overview is segmented, the four child calls are issued together and
  awaited together, and the detail object is assembled.
\<close>

definition detailPath :: "store \<Rightarrow> jsstring \<Rightarrow> (exn list + response) \<times> store_call list" where
  "detailPath store slug =
     (let esc = escapeFormulaString slug in
      case store (parentCall esc) of
        Inl reason \<Rightarrow> (Inl [Rejected reason], [parentCall esc])
      | Inr progRecords \<Rightarrow>
          (case progRecords of
             [] \<Rightarrow> (Inr notFound, [parentCall esc])
           | p # _ \<Rightarrow>
               (case overviewOf p of
                  Inl e \<Rightarrow> (Inl [e], [parentCall esc])
                | Inr overview \<Rightarrow>
                    (case (store (modulesCall esc), store (manualsCall esc),
                           store (formsCall esc), store (resourcesCall esc)) of
                       (Inr modules, Inr manuals, Inr forms, Inr resources) \<Rightarrow>
                         (case assemble slug p overview modules manuals forms resources of
                            Inl e \<Rightarrow> (Inl [e], parentCall esc # childCalls esc)
                          | Inr detail \<Rightarrow> (Inr (ok detail), parentCall esc # childCalls esc))
                     | _ \<Rightarrow>
                         (Inl (rejections (map store (childCalls esc))),
                          parentCall esc # childCalls esc)))))"

text \<open>The \<^verbatim>\<open>catch\<close> block turns whatever was thrown into the same response.\<close>

definition finish :: "(exn list + response) \<times> store_call list \<Rightarrow> outcome" where
  "finish r =
     (case fst r of
        Inl es \<Rightarrow> \<lparr>response = internalServerError, calls = snd r, caught = es\<rparr>
      | Inr res \<Rightarrow> \<lparr>response = res, calls = snd r, caught = []\<rparr>)"

definition handler :: "env \<Rightarrow> store \<Rightarrow> request \<Rightarrow> outcome" where
  "handler env store req =
     (if http_method req \<noteq> Some ''GET'' then
        \<lparr>response = methodNotAllowed, calls = [], caught = []\<rparr>
      else if unset (AIRTABLE_API_KEY env) \<or> unset (AIRTABLE_BASE_ID env) then
        \<lparr>response = notConfigured, calls = [], caught = []\<rparr>
      else
        (case getQuery req of
           Inl e \<Rightarrow> finish (Inl [e], [])
         | Inr query \<Rightarrow>
             (let slug = trim (case query (js ''slug'') of None \<Rightarrow> [] | Some v \<Rightarrow> v) in
              if slug = [] then finish (listing store) else finish (detailPath store slug))))"

section \<open>Reading a response, and a sample store\<close>

text \<open>What a client reads under a property name of a body or of an item.\<close>

fun property :: "jsval \<Rightarrow> string \<Rightarrow> jsval" where
  "property (JObj props) name = (case map_of props name of None \<Rightarrow> JUndefined | Some v \<Rightarrow> v)"
| "property _ name = JUndefined"

text \<open>The elements of an array of a body.\<close>

fun elements :: "jsval \<Rightarrow> jsval list" where
  "elements (JArr xs) = xs"
| "elements _ = []"

text \<open>
  A configured environment, a request for the slug \<^verbatim>\<open>o'b\\<close> written with a blank on each
  side, and a store holding one program and two training modules.
\<close>

definition example_env :: env where
  "example_env = \<lparr>AIRTABLE_API_KEY = Some (js ''key''), AIRTABLE_BASE_ID = Some (js ''app'')\<rparr>"

definition example_slug :: jsstring where
  "example_slug = js ''o'b'' @ [0x5C]"

definition example_request :: request where
  "example_request =
     \<lparr>http_method = Some ''GET'', searchParams = Some [(js ''slug'', 0x20 # example_slug @ [0x20])]\<rparr>"

definition example_program :: airtable_record where
  "example_program =
     \<lparr>record_id = js ''recP'',
      record_fields = [(''programSlug'', JStr example_slug),
                       (''programName'', JStr (js ''Program'')),
                       (''programOverview'', JStr (js ''A'' @ [NL, NL] @ js ''B''))]\<rparr>"

definition example_module :: "nat \<Rightarrow> airtable_record" where
  "example_module n =
     \<lparr>record_id = js ''recM'' @ [of_nat (48 + n)],
      record_fields = [(''programSlug'', JArr [JStr example_slug]),
                       (''moduleName'', JStr (js ''Module'')),
                       (''moduleLink'', JStr (js ''https://x/m'')),
                       (''sortOrder'', JNum (int n))]\<rparr>"

definition example_store :: store where
  "example_store c =
     (if table c = ''ClinicalPrograms'' then Inr [example_program]
      else if table c = ''TrainingModules'' then Inr [example_module 1, example_module 2]
      else Inr [])"


text \<open>
  An environment without the base identifier, a store without records, a store that
  rejects every call with a given reason, a request without parameters and one whose last
  \<^verbatim>\<open>slug\<close> parameter is white space only.
\<close>

definition unconfigured_env :: env where
  "unconfigured_env = \<lparr>AIRTABLE_API_KEY = Some (js ''key''), AIRTABLE_BASE_ID = None\<rparr>"

definition empty_store :: store where
  "empty_store c = Inr []"

definition failing_store :: "jsval \<Rightarrow> store" where
  "failing_store reason c = Inl reason"

definition listing_request :: request where
  "listing_request = \<lparr>http_method = Some ''GET'', searchParams = Some []\<rparr>"

definition blank_request :: request where
  "blank_request =
     \<lparr>http_method = Some ''GET'',
      searchParams = Some [(js ''slug'', js ''x''), (js ''slug'', [0x20, 0x09, 0x3000])]\<rparr>"

text \<open>
  A store in which 201 records match every selection: a first page cut at one record holds
  one, every page together 201. And the number in the \<^verbatim>\<open>sortOrder\<close> field of a record, as
  a sort key.
\<close>

definition crowded_store :: store where
  "crowded_store c =
     (if fetch c = FirstPage then Inr [example_program]
      else Inr (replicate 201 example_program))"




section \<open>Properties of the parts\<close>

lemma js_simps: "js [] = []" "js (c # cs) = of_char c # js cs"
  by (simp_all add: js_def)


lemma calls_listing: "snd (listing store) = [listCall]"
  by (simp add: listing_def split: sum.splits)


lemma calls_finish: "calls (finish r) = snd r"
  by (simp add: finish_def split: sum.splits)

lemma handler_listing:
  "http_method req = Some ''GET'' \<Longrightarrow> \<not> unset (AIRTABLE_API_KEY env) \<Longrightarrow>
   \<not> unset (AIRTABLE_BASE_ID env) \<Longrightarrow> getQuery req = Inr query \<Longrightarrow>
   trim (case query (js ''slug'') of None \<Rightarrow> [] | Some v \<Rightarrow> v) = [] \<Longrightarrow>
   handler env store req = finish (listing store)"
  by (simp add: handler_def)

lemma handler_detail:
  "http_method req = Some ''GET'' \<Longrightarrow> \<not> unset (AIRTABLE_API_KEY env) \<Longrightarrow>
   \<not> unset (AIRTABLE_BASE_ID env) \<Longrightarrow> getQuery req = Inr query \<Longrightarrow>
   trim (case query (js ''slug'') of None \<Rightarrow> [] | Some v \<Rightarrow> v) = slug \<Longrightarrow> slug \<noteq> [] \<Longrightarrow>
   handler env store req = finish (detailPath store slug)"
  by (simp add: handler_def)


lemma get_url_optional_total: "\<exists>u. get_url_optional v = Inr u"
  by (cases v) auto

lemma get_url_truthy: "get_url_optional v = Inr u \<Longrightarrow> truthy u \<Longrightarrow> get_url v = Inr u"
  by (cases v) auto

lemma firstAttachmentUrl_total: "\<exists>u. firstAttachmentUrl v = Inr u"
proof -
  have "\<exists>u. (case get_url_optional a of Inl e \<Rightarrow> Inl e
      | Inr u \<Rightarrow> if truthy u then get_url a else Inr JUndefined) = Inr u" for a
    using get_url_optional_total [of a] by (auto simp: get_url_truthy)
  then show ?thesis
    by (auto simp: firstAttachmentUrl_def split: jsval.splits list.splits)
qed

lemma resolveUrl_total: "\<exists>u. resolveUrl link file = Inr u"
  using firstAttachmentUrl_total [of "file"] by (auto simp: resolveUrl_def Let_def)

lemma moduleItem_total:
  "\<exists>item. moduleItem m = Inr item \<and> property item ''id'' = JStr (record_id m) \<and>
     Inr (property item ''url'') = resolveUrl (get m ''moduleLink'') (get m ''moduleFile'')"
  using resolveUrl_total [of "get m ''moduleLink''" "get m ''moduleFile''"]
  by (auto simp: moduleItem_def)

lemma manualItem_total:
  "\<exists>item. manualItem m = Inr item \<and> property item ''id'' = JStr (record_id m) \<and>
     Inr (property item ''fileUrl'') = resolveUrl (get m ''fileLink'') (get m ''protocolFile'')"
  using resolveUrl_total [of "get m ''fileLink''" "get m ''protocolFile''"]
  by (auto simp: manualItem_def)

lemma formItem_total:
  "\<exists>item. formItem m = Inr item \<and> property item ''id'' = JStr (record_id m) \<and>
     Inr (property item ''fileUrl'') = resolveUrl (get m ''formLink'') (get m ''formFile'')"
  using resolveUrl_total [of "get m ''formLink''" "get m ''formFile''"]
  by (auto simp: formItem_def)

lemma resourceItem_total:
  "\<exists>item. resourceItem m = Inr item \<and> property item ''id'' = JStr (record_id m) \<and>
     Inr (property item ''url'') = resolveUrl (get m ''resourceLink'') (get m ''resourceFile'')"
  using resolveUrl_total [of "get m ''resourceLink''" "get m ''resourceFile''"]
  by (auto simp: resourceItem_def)

lemma map_throwing_total:
  assumes "\<And>x. \<exists>y. f x = Inr y"
  shows "\<exists>ys. map_throwing f xs = Inr ys \<and> list_all2 (\<lambda>x y. f x = Inr y) xs ys"
proof (induction xs)
  case Nil
  show ?case by simp
next
  case (Cons x xs)
  obtain y where "f x = Inr y" using assms by blast
  moreover obtain ys where "map_throwing f xs = Inr ys" "list_all2 (\<lambda>x y. f x = Inr y) xs ys"
    using Cons by blast
  ultimately show ?case by simp
qed

lemma assemble_total:
  "\<exists>ms docs fs rs.
     list_all2 (\<lambda>x y. moduleItem x = Inr y) modules ms \<and>
     list_all2 (\<lambda>x y. manualItem x = Inr y) manuals docs \<and>
     list_all2 (\<lambda>x y. formItem x = Inr y) forms fs \<and>
     list_all2 (\<lambda>x y. resourceItem x = Inr y) resources rs \<and>
     assemble slug p overview modules manuals forms resources =
       Inr (JObj [(''slug'', JStr slug),
                  (''title'', js_or (get p ''programName'') (JStr [])),
                  (''subtitle'', js_or (get p ''programDescription'') (JStr [])),
                  (''image'', JUndefined),
                  (''overview'', JArr (map JStr overview)),
                  (''modules'', JArr ms),
                  (''manuals'', JArr docs),
                  (''forms'', JArr fs),
                  (''resources'', JArr rs)])"
proof -
  obtain ms where ms: "map_throwing moduleItem modules = Inr ms"
      "list_all2 (\<lambda>x y. moduleItem x = Inr y) modules ms"
    using map_throwing_total [of moduleItem modules] moduleItem_total by blast
  obtain docs where docs: "map_throwing manualItem manuals = Inr docs"
      "list_all2 (\<lambda>x y. manualItem x = Inr y) manuals docs"
    using map_throwing_total [of manualItem manuals] manualItem_total by blast
  obtain fs where fs: "map_throwing formItem forms = Inr fs"
      "list_all2 (\<lambda>x y. formItem x = Inr y) forms fs"
    using map_throwing_total [of formItem forms] formItem_total by blast
  obtain rs where rs: "map_throwing resourceItem resources = Inr rs"
      "list_all2 (\<lambda>x y. resourceItem x = Inr y) resources rs"
    using map_throwing_total [of resourceItem resources] resourceItem_total by blast
  show ?thesis
    using ms docs fs rs by (simp add: assemble_def)
qed

lemma detailPath_not_found:
  "store (parentCall (escapeFormulaString slug)) = Inr [] \<Longrightarrow>
   detailPath store slug = (Inr notFound, [parentCall (escapeFormulaString slug)])"
  by (simp add: detailPath_def)

lemma detailPath_found:
  assumes "store (parentCall (escapeFormulaString slug)) = Inr (p # ps)"
    and "overviewOf p = Inr overview"
    and "store (modulesCall (escapeFormulaString slug)) = Inr modules"
    and "store (manualsCall (escapeFormulaString slug)) = Inr manuals"
    and "store (formsCall (escapeFormulaString slug)) = Inr forms"
    and "store (resourcesCall (escapeFormulaString slug)) = Inr resources"
  shows "\<exists>ms docs fs rs.
     list_all2 (\<lambda>x y. moduleItem x = Inr y) modules ms \<and>
     list_all2 (\<lambda>x y. manualItem x = Inr y) manuals docs \<and>
     list_all2 (\<lambda>x y. formItem x = Inr y) forms fs \<and>
     list_all2 (\<lambda>x y. resourceItem x = Inr y) resources rs \<and>
     detailPath store slug =
       (Inr (ok (JObj [(''slug'', JStr slug),
                  (''title'', js_or (get p ''programName'') (JStr [])),
                  (''subtitle'', js_or (get p ''programDescription'') (JStr [])),
                  (''image'', JUndefined),
                  (''overview'', JArr (map JStr overview)),
                  (''modules'', JArr ms),
                  (''manuals'', JArr docs),
                  (''forms'', JArr fs),
                  (''resources'', JArr rs)])),
        parentCall (escapeFormulaString slug) # childCalls (escapeFormulaString slug))"
proof -
  obtain ms docs fs rs where
    "list_all2 (\<lambda>x y. moduleItem x = Inr y) modules ms"
    "list_all2 (\<lambda>x y. manualItem x = Inr y) manuals docs"
    "list_all2 (\<lambda>x y. formItem x = Inr y) forms fs"
    "list_all2 (\<lambda>x y. resourceItem x = Inr y) resources rs"
    "assemble slug p overview modules manuals forms resources =
       Inr (JObj [(''slug'', JStr slug),
                  (''title'', js_or (get p ''programName'') (JStr [])),
                  (''subtitle'', js_or (get p ''programDescription'') (JStr [])),
                  (''image'', JUndefined),
                  (''overview'', JArr (map JStr overview)),
                  (''modules'', JArr ms),
                  (''manuals'', JArr docs),
                  (''forms'', JArr fs),
                  (''resources'', JArr rs)])"
    using assemble_total [of modules manuals forms resources slug p overview] by blast
  then show ?thesis
    using assms
    by (intro exI [of _ ms] exI [of _ docs] exI [of _ fs] exI [of _ rs])
       (simp add: detailPath_def Let_def)
qed

lemma detailPath_rejected:
  assumes "c \<in> set (snd (detailPath store slug))" and "store c = Inl reason"
  shows "\<exists>es. fst (detailPath store slug) = Inl es"
  using assms
  by (auto simp: detailPath_def Let_def childCalls_def split: sum.splits list.splits)


lemma example_query:
  "getQuery example_request = Inr [js ''slug'' \<mapsto> 0x20 # example_slug @ [0x20]]"
  by (simp add: getQuery_def example_request_def js_simps)

lemma example_trim: "trim (0x20 # example_slug @ [0x20]) = example_slug"
  by (simp add: trim_def example_slug_def isWhiteSpace_def js_simps)


lemma example_parent:
  "example_store (parentCall esc) = Inr [example_program]"
  by (simp add: example_store_def parentCall_def)

lemma example_overview: "overviewOf example_program = Inr (segment (js ''A'' @ [NL, NL] @ js ''B''))"
  by (simp add: overviewOf_def example_program_def get_def js_or_def js_simps)


lemma trim_empty_iff: "trim s = [] \<longleftrightarrow> (\<forall>c\<in>set s. isWhiteSpace c)"
proof -
  have a: "(\<forall>c\<in>set (dropWhile isWhiteSpace s). isWhiteSpace c) \<longleftrightarrow> dropWhile isWhiteSpace s = []"
  proof (cases "dropWhile isWhiteSpace s")
    case Nil
    then show ?thesis by (auto dest: set_dropWhileD)
  next
    case (Cons c cs)
    then have "\<not> isWhiteSpace (hd (dropWhile isWhiteSpace s))"
      using hd_dropWhile [of isWhiteSpace s] by simp
    then show ?thesis using Cons by auto
  qed
  have "trim s = [] \<longleftrightarrow> dropWhile isWhiteSpace (rev (dropWhile isWhiteSpace s)) = []"
    by (simp add: trim_def)
  also have "\<dots> \<longleftrightarrow> (\<forall>c\<in>set (dropWhile isWhiteSpace s). isWhiteSpace c)"
    unfolding dropWhile_eq_Nil_conv set_rev ..
  also have "\<dots> \<longleftrightarrow> dropWhile isWhiteSpace s = []"
    by (rule a)
  also have "\<dots> \<longleftrightarrow> (\<forall>c\<in>set s. isWhiteSpace c)"
    by (rule dropWhile_eq_Nil_conv)
  finally show ?thesis .
qed

lemma response_finish:
  "response (finish r) = (case fst r of Inl es \<Rightarrow> internalServerError | Inr res \<Rightarrow> res)"
  by (simp add: finish_def split: sum.splits)

lemma rejected_call_500:
  assumes "c \<in> set (calls (handler env store req))" and "store c = Inl reason"
  shows "response (handler env store req) = internalServerError"
proof -
  have "calls (handler env store req) = [] \<or>
      handler env store req = finish (listing store) \<or>
      (\<exists>slug. handler env store req = finish (detailPath store slug))"
    by (auto simp: handler_def calls_finish Let_def split: sum.splits)
  then consider (none) "calls (handler env store req) = []"
    | (list) "handler env store req = finish (listing store)"
    | (detail) slug where "handler env store req = finish (detailPath store slug)"
    by blast
  then show ?thesis
  proof cases
    case none
    then show ?thesis using assms by simp
  next
    case list
    then have "c = listCall" using assms by (simp add: calls_finish calls_listing)
    then show ?thesis using assms list by (simp add: response_finish listing_def)
  next
    case detail
    then have "c \<in> set (snd (detailPath store slug))" using assms by (simp add: calls_finish)
    then obtain es where "fst (detailPath store slug) = Inl es"
      using detailPath_rejected assms(2) by blast
    then show ?thesis using detail by (simp add: response_finish)
  qed
qed

lemma firstAttachmentUrl_first:
  "get_url_optional first = Inr u \<Longrightarrow>
   firstAttachmentUrl (JArr (first # rest)) = Inr (if truthy u then u else JUndefined)"
  by (simp add: firstAttachmentUrl_def js_or_def get_url_truthy)

lemma firstAttachmentUrl_no_array:
  "\<not> isArray attachments \<Longrightarrow> firstAttachmentUrl attachments = Inr JUndefined"
  by (cases attachments) (simp_all add: firstAttachmentUrl_def js_or_def)

lemma firstAttachmentUrl_falsy:
  "\<not> truthy attachments \<Longrightarrow> firstAttachmentUrl attachments = Inr JUndefined"
  by (simp add: firstAttachmentUrl_def js_or_def)

lemma firstAttachmentUrl_empty: "firstAttachmentUrl (JArr []) = Inr JUndefined"
  by (simp add: firstAttachmentUrl_def js_or_def)

lemma resolveUrl_link:
  "is_string link \<Longrightarrow> truthy link \<Longrightarrow> resolveUrl link attachments = Inr link"
  by (simp add: resolveUrl_def)

lemma resolveUrl_no_link:
  "\<not> (is_string link \<and> truthy link) \<Longrightarrow> firstAttachmentUrl attachments = Inr u \<Longrightarrow>
   resolveUrl link attachments = Inr (if truthy u then u else JUndefined)"
  by (auto simp: resolveUrl_def js_or_def)

lemma trim_idem: "trim (trim s) = trim s"
proof -
  define t where "t = dropWhile isWhiteSpace s"
  define u where "u = dropWhile isWhiteSpace (rev t)"
  have ts: "trim s = rev u"
    by (simp add: trim_def t_def u_def)
  have "dropWhile isWhiteSpace (rev u) = rev u"
  proof (cases "u = []")
    case True
    then show ?thesis by simp
  next
    case False
    then have "rev t \<noteq> []" by (auto simp: u_def)
    then have "t \<noteq> []" by simp
    then have h: "\<not> isWhiteSpace (hd t)"
      unfolding t_def using hd_dropWhile [of isWhiteSpace s] by simp
    have "rev t = takeWhile isWhiteSpace (rev t) @ u"
      by (simp add: u_def)
    then have "last (rev t) = last (takeWhile isWhiteSpace (rev t) @ u)"
      by simp
    then have "last u = last (rev t)"
      using False by simp
    then have "hd (rev u) = hd t"
      using False \<open>t \<noteq> []\<close> by (simp add: hd_rev last_rev)
    with h show ?thesis
      using False by (cases "rev u") auto
  qed
  moreover have "dropWhile isWhiteSpace u = u"
    by (simp add: u_def)
  ultimately have "trim (rev u) = rev u"
    by (simp add: trim_def)
  then show ?thesis
    by (simp only: ts)
qed

lemma set_trim: "set (trim s) \<subseteq> set s"
  by (auto simp: trim_def dest!: set_dropWhileD)

lemma match_separator_None: "match_separator (c # cs) = None \<Longrightarrow> c \<noteq> NL"
  by (auto simp: match_separator_def alt_newline_def split: option.splits)

lemma split_from_no_NL:
  "NL \<notin> set piece \<Longrightarrow> p \<in> set (split_from piece s) \<Longrightarrow> NL \<notin> set p"
proof (induction piece s rule: split_from.induct)
  case (1 piece)
  then show ?case by simp
next
  case (2 piece c cs)
  show ?case
  proof (cases "match_separator (c # cs)")
    case None
    then show ?thesis
      using 2 match_separator_None [OF None] by auto
  next
    case (Some r)
    then show ?thesis
      using 2 by auto
  qed
qed

lemma paragraphs_of_Cons:
  "paragraphs_of (p # ps) = (if trim p = [] then [] else [trim p]) @ paragraphs_of ps"
  by (simp add: paragraphs_of_def)

lemma isWhiteSpace_NL: "isWhiteSpace NL"
  by (simp add: isWhiteSpace_def NL_def)

lemma isWhiteSpace_CR: "isWhiteSpace CR"
  by (simp add: isWhiteSpace_def CR_def)

lemma trim_snoc_space: "isWhiteSpace x \<Longrightarrow> trim (s @ [x]) = trim s"
proof (cases "\<forall>c\<in>set s. isWhiteSpace c")
  case True
  assume "isWhiteSpace x"
  with True have "trim (s @ [x]) = []" "trim s = []"
    by (simp_all add: trim_empty_iff)
  then show ?thesis by simp
next
  case False
  assume "isWhiteSpace x"
  with False show ?thesis
    by (auto simp: trim_def dropWhile_append)
qed

lemma ws_star_nl_Some:
  "ws_star_nl cs = Some r \<Longrightarrow> \<exists>w. cs = w @ NL # r \<and> (\<forall>x\<in>set w. isWhiteSpace x)"
proof (induction cs arbitrary: r)
  case Nil
  then show ?case by simp
next
  case (Cons c cs)
  show ?case
  proof (cases "ws_star_nl cs")
    case None
    with Cons.prems have "c = NL" "r = cs"
      by (auto split: if_splits)
    then show ?thesis
      by (intro exI [of _ "[]"]) simp
  next
    case (Some r')
    with Cons.prems have c: "isWhiteSpace c" "r' = r"
      by (auto split: if_splits simp: isWhiteSpace_NL)
    obtain w where "cs = w @ NL # r" "\<forall>x\<in>set w. isWhiteSpace x"
      using Cons.IH Some c(2) by blast
    then show ?thesis
      using c(1) by (intro exI [of _ "c # w"]) simp
  qed
qed

lemma split_at_newlines_space:
  "\<forall>x\<in>set w. isWhiteSpace x \<Longrightarrow> \<forall>x\<in>set acc. isWhiteSpace x \<Longrightarrow>
   paragraphs_of (split_at_newlines acc (w @ NL # r)) = paragraphs_of (split_at_newlines [] r)"
proof (induction w arbitrary: acc)
  case Nil
  then show ?case
    by (simp add: paragraphs_of_Cons trim_empty_iff)
next
  case (Cons x w)
  show ?case
  proof (cases "x = NL")
    case True
    then show ?thesis
      using Cons by (simp add: paragraphs_of_Cons trim_empty_iff)
  next
    case False
    then show ?thesis
      using Cons by simp
  qed
qed

lemma split_at_newlines_acc:
  "paragraphs_of (split_at_newlines (acc @ [x]) s) = paragraphs_of (split_at_newlines acc s)"
  if "isWhiteSpace x" "s = [] \<or> hd s = NL"
  using that by (cases s) (auto simp: paragraphs_of_Cons trim_snoc_space)

lemma match_separator_Some:
  assumes "match_separator (c # cs) = Some r"
  shows "c = NL \<and> ws_star_nl cs = Some r \<or> c # cs = [CR, NL, CR, NL] @ r \<or> c = NL \<and> r = cs"
proof (cases "c = NL")
  case True
  then show ?thesis
    using assms
    by (auto simp: match_separator_def alt_blank_line_def alt_crlf_crlf_def alt_newline_def
        NL_def CR_def split: option.splits if_splits)
next
  case False
  then have "alt_crlf_crlf (c # cs) = Some r"
    using assms
    by (simp add: match_separator_def alt_blank_line_def alt_newline_def split: option.splits)
  then have "take 4 (c # cs) = [CR, NL, CR, NL] \<and> r = drop 4 (c # cs)"
    unfolding alt_crlf_crlf_def by (metis option.distinct(1) option.inject)
  then have "c # cs = [CR, NL, CR, NL] @ r"
    by (metis append_take_drop_id)
  then show ?thesis
    by blast
qed

lemma split_from_refines:
  "paragraphs_of (split_from piece s) = paragraphs_of (split_at_newlines piece s)"
proof (induction piece s rule: split_from.induct)
  case (1 piece)
  show ?case by simp
next
  case (2 piece c cs)
  show ?case
  proof (cases "match_separator (c # cs)")
    case None
    then have "c \<noteq> NL"
      by (rule match_separator_None)
    then show ?thesis
      using 2 None by simp
  next
    case (Some r)
    then have ih: "paragraphs_of (split_from [] r) = paragraphs_of (split_at_newlines [] r)"
      using 2 by simp
    have l: "paragraphs_of (split_from piece (c # cs))
        = paragraphs_of [piece] @ paragraphs_of (split_at_newlines [] r)"
      using Some ih by (simp add: paragraphs_of_Cons) (simp add: paragraphs_of_def)
    consider (blank) "c = NL" "ws_star_nl cs = Some r"
      | (crlf) "c # cs = [CR, NL, CR, NL] @ r"
      | (newline) "c = NL" "r = cs"
      using match_separator_Some [OF Some] by blast
    then have "paragraphs_of (split_at_newlines piece (c # cs))
        = paragraphs_of [piece] @ paragraphs_of (split_at_newlines [] r)"
    proof cases
      case blank
      then obtain w where "cs = w @ NL # r" "\<forall>x\<in>set w. isWhiteSpace x"
        using ws_star_nl_Some by blast
      then show ?thesis
        using blank(1) split_at_newlines_space [of w "[]" r]
        by (simp add: paragraphs_of_Cons) (simp add: paragraphs_of_def)
    next
      case crlf
      have "CR \<noteq> NL"
        by (simp add: CR_def NL_def)
      then show ?thesis
        using crlf isWhiteSpace_CR
        by (simp add: paragraphs_of_Cons trim_snoc_space trim_empty_iff)
           (simp add: paragraphs_of_def)
    next
      case newline
      then show ?thesis
        by (simp add: paragraphs_of_Cons) (simp add: paragraphs_of_def)
    qed
    with l show ?thesis by simp
  qed
qed

lemma segment_refines:
  "segment raw = filter (\<lambda>s. s \<noteq> []) (map trim (split_at_newlines [] raw))"
  using split_from_refines [of "[]" raw]
  by (cases raw) (simp_all add: segment_def split_paragraphs_def paragraphs_of_def trim_def)

lemma example_segment:
  "segment (js '' A b'' @ [CR, NL, CR, NL, 0x20, NL, 0x09, 0x42, 0x20, NL]) = [js ''A b'', js ''B'']"
  by (simp add: segment_def split_paragraphs_def js_simps match_separator_def alt_blank_line_def
      alt_crlf_crlf_def alt_newline_def trim_def isWhiteSpace_def NL_def CR_def)

lemma handler_found:
  assumes "http_method req = Some ''GET''"
    and "\<not> unset (AIRTABLE_API_KEY env)" and "\<not> unset (AIRTABLE_BASE_ID env)"
    and "getQuery req = Inr query"
    and "slug = trim (case query (js ''slug'') of None \<Rightarrow> [] | Some v \<Rightarrow> v)"
    and "slug \<noteq> []"
    and "store (parentCall (escapeFormulaString slug)) = Inr (p # ps)"
    and "overviewOf p = Inr overview"
    and "store (modulesCall (escapeFormulaString slug)) = Inr modules"
    and "store (manualsCall (escapeFormulaString slug)) = Inr manuals"
    and "store (formsCall (escapeFormulaString slug)) = Inr forms"
    and "store (resourcesCall (escapeFormulaString slug)) = Inr resources"
  shows "\<exists>ms docs fs rs.
     list_all2 (\<lambda>x y. moduleItem x = Inr y) modules ms \<and>
     list_all2 (\<lambda>x y. manualItem x = Inr y) manuals docs \<and>
     list_all2 (\<lambda>x y. formItem x = Inr y) forms fs \<and>
     list_all2 (\<lambda>x y. resourceItem x = Inr y) resources rs \<and>
     statusCode (response (handler env store req)) = 200 \<and>
     property (body (response (handler env store req))) ''overview'' = JArr (map JStr overview) \<and>
     property (body (response (handler env store req))) ''modules'' = JArr ms \<and>
     property (body (response (handler env store req))) ''manuals'' = JArr docs \<and>
     property (body (response (handler env store req))) ''forms'' = JArr fs \<and>
     property (body (response (handler env store req))) ''resources'' = JArr rs"
proof -
  have h: "handler env store req = finish (detailPath store slug)"
    using handler_detail [OF assms(1-4) assms(5) [symmetric] assms(6)] .
  obtain ms docs fs rs where
    "list_all2 (\<lambda>x y. moduleItem x = Inr y) modules ms"
    "list_all2 (\<lambda>x y. manualItem x = Inr y) manuals docs"
    "list_all2 (\<lambda>x y. formItem x = Inr y) forms fs"
    "list_all2 (\<lambda>x y. resourceItem x = Inr y) resources rs"
    "detailPath store slug =
       (Inr (ok (JObj [(''slug'', JStr slug),
                  (''title'', js_or (get p ''programName'') (JStr [])),
                  (''subtitle'', js_or (get p ''programDescription'') (JStr [])),
                  (''image'', JUndefined),
                  (''overview'', JArr (map JStr overview)),
                  (''modules'', JArr ms),
                  (''manuals'', JArr docs),
                  (''forms'', JArr fs),
                  (''resources'', JArr rs)])),
        parentCall (escapeFormulaString slug) # childCalls (escapeFormulaString slug))"
    using detailPath_found [of store slug, OF assms(7-12)] by blast
  then show ?thesis
    by (intro exI [of _ ms] exI [of _ docs] exI [of _ fs] exI [of _ rs])
       (simp add: h response_finish ok_def)
qed

lemma listing_items:
  assumes "http_method req = Some ''GET''"
    and "\<not> unset (AIRTABLE_API_KEY env)" and "\<not> unset (AIRTABLE_BASE_ID env)"
    and "getQuery req = Inr query"
    and "trim (case query (js ''slug'') of None \<Rightarrow> [] | Some v \<Rightarrow> v) = []"
    and "store listCall = Inr records"
  shows "property (body (response (handler env store req))) ''items'' = JArr (map listItem records)"
  using handler_listing [OF assms(1-5), of store] assms(6)
  by (simp add: response_finish listing_def ok_def)

lemma example_keys:
  "\<not> unset (AIRTABLE_API_KEY example_env)" "\<not> unset (AIRTABLE_BASE_ID example_env)"
  by (simp_all add: example_env_def unset_def js_simps)

lemma example_get: "http_method example_request = Some ''GET''"
  by (simp add: example_request_def)

lemma example_slug_trim:
  "example_slug = trim (case [js ''slug'' \<mapsto> 0x20 # example_slug @ [0x20]] (js ''slug'') of
                          None \<Rightarrow> [] | Some v \<Rightarrow> v)"
  by (simp add: example_trim)

lemma example_slug_not_empty: "example_slug \<noteq> []"
  by (simp add: example_slug_def js_simps)

lemma listing_query: "getQuery listing_request = Inr Map.empty"
  by (simp add: getQuery_def listing_request_def)

lemma listing_get: "http_method listing_request = Some ''GET''"
  by (simp add: listing_request_def)





section \<open>The claims\<close>



text \<open>
  C2, as the claim has it, would bound the listing by 50 items and the child sequences by
  100, 100, 200 and 100. The handler passes these numbers as \<^verbatim>\<open>pageSize\<close> of a selection it
  reads with \<^verbatim>\<open>all()\<close>, and maps every record returned: against a store that returns 201
  records the listing has 201 items and the detail has 201 forms.
\<close>

theorem listing_cap_counterexample:
  "\<not> length (elements (property (body (response
        (handler example_env crowded_store listing_request))) ''items'')) \<le> 50 \<and>
   \<not> length (elements (property (body (response
        (handler example_env crowded_store example_request))) ''forms'')) \<le> 200"
proof -
  have "property (body (response (handler example_env crowded_store listing_request))) ''items''
      = JArr (map listItem (replicate 201 example_program))"
    by (rule listing_items [OF listing_get example_keys listing_query])
       (simp_all add: trim_def crowded_store_def listCall_def)
  then have 1: "length (elements (property (body (response
        (handler example_env crowded_store listing_request))) ''items'')) = 201"
    by simp
  have p: "crowded_store (parentCall (escapeFormulaString example_slug)) = Inr [example_program]"
    by (simp add: crowded_store_def parentCall_def)
  obtain fs where "list_all2 (\<lambda>x y. formItem x = Inr y) (replicate 201 example_program) fs"
    "property (body (response (handler example_env crowded_store example_request))) ''forms''
      = JArr fs"
    using handler_found [where store = crowded_store and slug = example_slug
          and modules = "replicate 201 example_program"
          and manuals = "replicate 201 example_program"
          and forms = "replicate 201 example_program"
          and resources = "replicate 201 example_program",
        OF example_get example_keys example_query example_slug_trim
          example_slug_not_empty p example_overview]
    by (auto simp: crowded_store_def modulesCall_def manualsCall_def formsCall_def
        resourcesCall_def)
  then have 2: "length (elements (property (body (response
        (handler example_env crowded_store example_request))) ''forms'')) = 201"
    by (auto dest: list_all2_lengthD)
  show ?thesis
    using 1 2 by simp
qed

text \<open>
  C2, amended. The listing holds one item for each record the listing call returns, and
  each of the four child sequences one item for each record its call returns; the calls
  read every page (\<^verbatim>\<open>all()\<close>) of a selection with page sizes 50 and 100, 100, 200, 100 and
  without \<^verbatim>\<open>maxRecords\<close>, and the handler drops no record.
\<close>

theorem item_counts_follow_store:
  assumes "http_method req = Some ''GET''"
    and "\<not> unset (AIRTABLE_API_KEY env)" and "\<not> unset (AIRTABLE_BASE_ID env)"
    and "getQuery req = Inr query"
    and "slug = trim (case query (js ''slug'') of None \<Rightarrow> [] | Some v \<Rightarrow> v)"
  shows "(slug = [] \<longrightarrow> store listCall = Inr records \<longrightarrow>
       length (elements (property (body (response (handler env store req))) ''items''))
         = length records) \<and>
    (slug \<noteq> [] \<longrightarrow>
       store (parentCall (escapeFormulaString slug)) = Inr (p # ps) \<longrightarrow>
       overviewOf p = Inr overview \<longrightarrow>
       store (modulesCall (escapeFormulaString slug)) = Inr modules \<longrightarrow>
       store (manualsCall (escapeFormulaString slug)) = Inr manuals \<longrightarrow>
       store (formsCall (escapeFormulaString slug)) = Inr forms \<longrightarrow>
       store (resourcesCall (escapeFormulaString slug)) = Inr resources \<longrightarrow>
       length (elements (property (body (response (handler env store req))) ''modules''))
         = length modules \<and>
       length (elements (property (body (response (handler env store req))) ''manuals''))
         = length manuals \<and>
       length (elements (property (body (response (handler env store req))) ''forms''))
         = length forms \<and>
       length (elements (property (body (response (handler env store req))) ''resources''))
         = length resources) \<and>
    map (\<lambda>c. (fetch c, pageSize (params c), maxRecords (params c)))
        (listCall # childCalls (escapeFormulaString slug))
      = [(AllPages, Some 50, None), (AllPages, Some 100, None), (AllPages, Some 100, None),
         (AllPages, Some 200, None), (AllPages, Some 100, None)]"
proof (intro conjI impI)
  assume "slug = []" "store listCall = Inr records"
  then show "length (elements (property (body (response (handler env store req))) ''items''))
      = length records"
    using listing_items [OF assms(1-4), of store records] assms(5) by simp
next
  assume a: "slug \<noteq> []" "store (parentCall (escapeFormulaString slug)) = Inr (p # ps)"
    "overviewOf p = Inr overview"
    "store (modulesCall (escapeFormulaString slug)) = Inr modules"
    "store (manualsCall (escapeFormulaString slug)) = Inr manuals"
    "store (formsCall (escapeFormulaString slug)) = Inr forms"
    "store (resourcesCall (escapeFormulaString slug)) = Inr resources"
  obtain ms docs fs rs where r:
    "list_all2 (\<lambda>x y. moduleItem x = Inr y) modules ms"
    "list_all2 (\<lambda>x y. manualItem x = Inr y) manuals docs"
    "list_all2 (\<lambda>x y. formItem x = Inr y) forms fs"
    "list_all2 (\<lambda>x y. resourceItem x = Inr y) resources rs"
    "property (body (response (handler env store req))) ''modules'' = JArr ms"
    "property (body (response (handler env store req))) ''manuals'' = JArr docs"
    "property (body (response (handler env store req))) ''forms'' = JArr fs"
    "property (body (response (handler env store req))) ''resources'' = JArr rs"
    using handler_found [OF assms a] by blast
  show "length (elements (property (body (response (handler env store req))) ''modules''))
      = length modules"
    using r(1,5) by (simp add: list_all2_lengthD)
  show "length (elements (property (body (response (handler env store req))) ''manuals''))
      = length manuals"
    using r(2,6) by (simp add: list_all2_lengthD)
  show "length (elements (property (body (response (handler env store req))) ''forms''))
      = length forms"
    using r(3,7) by (simp add: list_all2_lengthD)
  show "length (elements (property (body (response (handler env store req))) ''resources''))
      = length resources"
    using r(4,8) by (simp add: list_all2_lengthD)
next
  show "map (\<lambda>c. (fetch c, pageSize (params c), maxRecords (params c)))
        (listCall # childCalls (escapeFormulaString slug))
      = [(AllPages, Some 50, None), (AllPages, Some 100, None), (AllPages, Some 100, None),
         (AllPages, Some 200, None), (AllPages, Some 100, None)]"
    by (simp add: listCall_def childCalls_def modulesCall_def manualsCall_def formsCall_def
        resourcesCall_def)
qed

theorem item_counts_follow_store_witness:
  "length (elements (property (body (response
        (handler example_env example_store listing_request))) ''items'')) = 1 \<and>
   length (elements (property (body (response
        (handler example_env example_store example_request))) ''modules'')) = 2 \<and>
   length (elements (property (body (response
        (handler example_env example_store example_request))) ''forms'')) = 0"
proof -
  have t: "[] = trim (case Map.empty (js ''slug'') of None \<Rightarrow> [] | Some v \<Rightarrow> v)"
    by (simp add: trim_def)
  have l: "example_store listCall = Inr [example_program]"
    by (simp add: example_store_def listCall_def)
  have c: "example_store (modulesCall (escapeFormulaString example_slug))
        = Inr [example_module 1, example_module 2]"
      "example_store (manualsCall (escapeFormulaString example_slug)) = Inr []"
      "example_store (formsCall (escapeFormulaString example_slug)) = Inr []"
      "example_store (resourcesCall (escapeFormulaString example_slug)) = Inr []"
    by (simp_all add: example_store_def modulesCall_def manualsCall_def formsCall_def
        resourcesCall_def)
  show ?thesis
    using item_counts_follow_store [OF listing_get example_keys listing_query t,
        of example_store "[example_program]"] l
      item_counts_follow_store [OF example_get example_keys example_query example_slug_trim,
        of example_store _ example_program "[]" "segment (js ''A'' @ [NL, NL] @ js ''B'')"
          "[example_module 1, example_module 2]" "[]" "[]" "[]"]
      example_slug_not_empty example_parent example_overview c
    by simp
qed

text \<open>
  C3. A request for a slug whose parent lookup finds no record is answered 404 with the
  body \<^verbatim>\<open>{"error": "Program not found"}\<close>; the parent lookup is the only store call of the
  run, none of the four child calls is issued.
\<close>

theorem unmatched_slug_404:
  assumes "http_method req = Some ''GET''"
    and "\<not> unset (AIRTABLE_API_KEY env)" and "\<not> unset (AIRTABLE_BASE_ID env)"
    and "getQuery req = Inr query"
    and "slug = trim (case query (js ''slug'') of None \<Rightarrow> [] | Some v \<Rightarrow> v)"
    and "slug \<noteq> []"
    and "store (parentCall (escapeFormulaString slug)) = Inr []"
  shows "handler env store req =
      \<lparr>response = notFound, calls = [parentCall (escapeFormulaString slug)], caught = []\<rparr> \<and>
    statusCode notFound = 404 \<and>
    body notFound = error_body ''Program not found'' \<and>
    set (calls (handler env store req)) \<inter> set (childCalls (escapeFormulaString slug)) = {}"
proof -
  have h: "handler env store req =
      \<lparr>response = notFound, calls = [parentCall (escapeFormulaString slug)], caught = []\<rparr>"
    using handler_detail [OF assms(1-4) assms(5) [symmetric] assms(6), of store]
      detailPath_not_found [of store slug, OF assms(7)]
    by (simp add: finish_def)
  have "parentCall (escapeFormulaString slug) \<notin> set (childCalls (escapeFormulaString slug))"
    by (simp add: childCalls_def parentCall_def modulesCall_def manualsCall_def formsCall_def
        resourcesCall_def)
  with h show ?thesis
    by (simp add: notFound_def)
qed

theorem unmatched_slug_404_witness:
  "example_slug \<noteq> [] \<and>
   empty_store (parentCall (escapeFormulaString example_slug)) = Inr [] \<and>
   handler example_env empty_store example_request =
      \<lparr>response = notFound, calls = [parentCall (escapeFormulaString example_slug)], caught = []\<rparr>"
proof -
  have g: "http_method example_request = Some ''GET''"
    by (simp add: example_request_def)
  have k: "\<not> unset (AIRTABLE_API_KEY example_env)" "\<not> unset (AIRTABLE_BASE_ID example_env)"
    by (simp_all add: example_env_def unset_def js_simps)
  have t: "example_slug = trim (case [js ''slug'' \<mapsto> 0x20 # example_slug @ [0x20]] (js ''slug'') of
                          None \<Rightarrow> [] | Some v \<Rightarrow> v)"
    by (simp add: example_trim)
  have n: "example_slug \<noteq> []"
    by (simp add: example_slug_def js_simps)
  have e: "empty_store (parentCall (escapeFormulaString example_slug)) = Inr []"
    by (simp add: empty_store_def)
  show ?thesis
    using unmatched_slug_404 [where store = empty_store and slug = example_slug, OF g k example_query t n e] n e by simp
qed

text \<open>
  C4. Every paragraph the segmentation returns is non-empty, is its own trimmed form and
  holds no newline: the text is cut at every blank line and at every bare newline, the
  pieces are trimmed and the empty ones dropped. The result is the same as cutting at
  every single newline, trimming and dropping. The empty text gives no paragraph,
  \<^verbatim>\<open>"A\n\nB"\<close> gives \<^verbatim>\<open>["A", "B"]\<close>, and so does \<^verbatim>\<open>"A\nB"\<close>.
\<close>

theorem segment_paragraphs:
  "(\<forall>p\<in>set (segment raw). p \<noteq> [] \<and> trim p = p \<and> NL \<notin> set p) \<and>
   segment raw = filter (\<lambda>s. s \<noteq> []) (map trim (split_at_newlines [] raw)) \<and>
   segment [] = [] \<and>
   segment (js ''A'' @ [NL, NL] @ js ''B'') = [js ''A'', js ''B''] \<and>
   segment (js ''A'' @ [NL] @ js ''B'') = [js ''A'', js ''B'']"
proof (intro conjI ballI)
  fix p
  assume "p \<in> set (segment raw)"
  then obtain q where q: "q \<in> set (split_paragraphs raw)" "p = trim q" "p \<noteq> []"
    by (auto simp: segment_def split: if_splits)
  show "p \<noteq> []"
    by (rule q(3))
  show "trim p = p"
    by (simp add: q(2) trim_idem)
  have "NL \<notin> set q"
    using q(1) split_from_no_NL [of "[]" q raw] by (simp add: split_paragraphs_def)
  then show "NL \<notin> set p"
    using set_trim [of q] q(2) by auto
next
  show "segment raw = filter (\<lambda>s. s \<noteq> []) (map trim (split_at_newlines [] raw))"
    by (rule segment_refines)
  show "segment [] = []"
    by (simp add: segment_def)
  show "segment (js ''A'' @ [NL, NL] @ js ''B'') = [js ''A'', js ''B'']"
    by (simp add: segment_def split_paragraphs_def js_simps match_separator_def alt_blank_line_def
        alt_crlf_crlf_def alt_newline_def trim_def isWhiteSpace_def NL_def CR_def)
  show "segment (js ''A'' @ [NL] @ js ''B'') = [js ''A'', js ''B'']"
    by (simp add: segment_def split_paragraphs_def js_simps match_separator_def alt_blank_line_def
        alt_crlf_crlf_def alt_newline_def trim_def isWhiteSpace_def NL_def CR_def)
qed

theorem segment_paragraphs_witness:
  "segment (js '' A b'' @ [CR, NL, CR, NL, 0x20, NL, 0x09, 0x42, 0x20, NL]) = [js ''A b'', js ''B''] \<and>
   js ''A b'' \<noteq> [] \<and> trim (js ''A b'') = js ''A b'' \<and> NL \<notin> set (js ''A b'')"
proof -
  have "js ''A b'' \<in> set (segment (js '' A b'' @ [CR, NL, CR, NL, 0x20, NL, 0x09, 0x42, 0x20, NL]))"
    by (simp add: example_segment)
  then show ?thesis
    using segment_paragraphs [of "js '' A b'' @ [CR, NL, CR, NL, 0x20, NL, 0x09, 0x42, 0x20, NL]"]
      example_segment
    by blast
qed

text \<open>
  C5, as the claim has it, would make the url of a record without a link string the
  \<^verbatim>\<open>url\<close> of its first attachment whenever the attachment list is not empty. A first
  attachment whose \<^verbatim>\<open>url\<close> is the empty string shows the difference: the url resolved is
  \<^verbatim>\<open>undefined\<close>, not that \<^verbatim>\<open>url\<close>.
\<close>

theorem resolveUrl_first_url_counterexample:
  "resolveUrl JUndefined (JArr [JObj [(''url'', JStr [])]]) = Inr JUndefined \<and>
   get_url (JObj [(''url'', JStr [])]) = Inr (JStr []) \<and>
   resolveUrl JUndefined (JArr [JObj [(''url'', JStr [])]]) \<noteq> get_url (JObj [(''url'', JStr [])])"
  by (simp add: resolveUrl_def firstAttachmentUrl_def js_or_def)

text \<open>
  C5, amended. The url of a child record is its link field whenever that holds a
  non-empty string, whatever the attachment field holds; otherwise, when the attachment
  list is not empty and its first element has a truthy \<^verbatim>\<open>url\<close>, it is that \<^verbatim>\<open>url\<close>; when the
  attachment field is absent (or falsy, or the empty list) it is \<^verbatim>\<open>undefined\<close>. The
  resolution never throws, and it is the url each of the four item mappings emits.
\<close>

theorem resolveUrl_policy:
  "(is_string link \<and> truthy link \<longrightarrow> resolveUrl link attachments = Inr link) \<and>
   (\<not> (is_string link \<and> truthy link) \<longrightarrow> attachments = JArr (first # rest) \<longrightarrow>
      get_url_optional first = Inr u \<longrightarrow> truthy u \<longrightarrow> resolveUrl link attachments = Inr u) \<and>
   (\<not> (is_string link \<and> truthy link) \<longrightarrow> \<not> truthy attachments \<or> attachments = JArr [] \<longrightarrow>
      resolveUrl link attachments = Inr JUndefined) \<and>
   (\<exists>r. resolveUrl link attachments = Inr r) \<and>
   (\<exists>item. moduleItem m = Inr item \<and>
      Inr (property item ''url'') = resolveUrl (get m ''moduleLink'') (get m ''moduleFile'')) \<and>
   (\<exists>item. manualItem m = Inr item \<and>
      Inr (property item ''fileUrl'') = resolveUrl (get m ''fileLink'') (get m ''protocolFile'')) \<and>
   (\<exists>item. formItem m = Inr item \<and>
      Inr (property item ''fileUrl'') = resolveUrl (get m ''formLink'') (get m ''formFile'')) \<and>
   (\<exists>item. resourceItem m = Inr item \<and>
      Inr (property item ''url'') = resolveUrl (get m ''resourceLink'') (get m ''resourceFile''))"
proof (intro conjI impI)
  show "resolveUrl link attachments = Inr link" if "is_string link \<and> truthy link"
    using that by (simp add: resolveUrl_link)
  show "resolveUrl link attachments = Inr u"
    if "\<not> (is_string link \<and> truthy link)" "attachments = JArr (first # rest)"
      "get_url_optional first = Inr u" "truthy u"
    using that resolveUrl_no_link [OF that(1), of attachments u]
    by (simp add: firstAttachmentUrl_first)
  show "resolveUrl link attachments = Inr JUndefined"
    if "\<not> (is_string link \<and> truthy link)" "\<not> truthy attachments \<or> attachments = JArr []"
    using that resolveUrl_no_link [OF that(1), of attachments JUndefined]
    by (auto simp: firstAttachmentUrl_falsy firstAttachmentUrl_empty)
  show "\<exists>r. resolveUrl link attachments = Inr r"
    by (rule resolveUrl_total)
  show "\<exists>item. moduleItem m = Inr item \<and>
      Inr (property item ''url'') = resolveUrl (get m ''moduleLink'') (get m ''moduleFile'')"
    using moduleItem_total [of m] by blast
  show "\<exists>item. manualItem m = Inr item \<and>
      Inr (property item ''fileUrl'') = resolveUrl (get m ''fileLink'') (get m ''protocolFile'')"
    using manualItem_total [of m] by blast
  show "\<exists>item. formItem m = Inr item \<and>
      Inr (property item ''fileUrl'') = resolveUrl (get m ''formLink'') (get m ''formFile'')"
    using formItem_total [of m] by blast
  show "\<exists>item. resourceItem m = Inr item \<and>
      Inr (property item ''url'') = resolveUrl (get m ''resourceLink'') (get m ''resourceFile'')"
    using resourceItem_total [of m] by blast
qed

theorem resolveUrl_policy_witness:
  "resolveUrl (JStr (js ''https://x/link'')) (JArr [JObj [(''url'', JStr (js ''https://x/file''))]])
     = Inr (JStr (js ''https://x/link'')) \<and>
   resolveUrl (JStr []) (JArr [JObj [(''url'', JStr (js ''https://x/file''))], JObj [(''url'', JStr (js ''https://x/2''))]])
     = Inr (JStr (js ''https://x/file'')) \<and>
   resolveUrl JUndefined JUndefined = Inr JUndefined"
proof -
  let ?l = "JStr (js ''https://x/link'')"
  let ?f = "JObj [(''url'', JStr (js ''https://x/file''))]"
  let ?g = "JObj [(''url'', JStr (js ''https://x/2''))]"
  have 1: "is_string ?l \<and> truthy ?l"
    by (simp add: js_simps)
  have 2: "\<not> (is_string (JStr []) \<and> truthy (JStr []))" "get_url_optional ?f = Inr (JStr (js ''https://x/file''))"
    "truthy (JStr (js ''https://x/file''))"
    by (simp_all add: js_simps)
  have 3: "\<not> (is_string JUndefined \<and> truthy JUndefined)" "\<not> truthy JUndefined \<or> JUndefined = JArr []"
    by simp_all
  show ?thesis
    using resolveUrl_policy [of ?l "JArr [?f]"] 1
      resolveUrl_policy [of "JStr []" "JArr [?f, ?g]" ?f "[?g]" "JStr (js ''https://x/file'')"] 2
      resolveUrl_policy [of JUndefined JUndefined] 3
    by blast
qed

text \<open>
  C6. With the access key or the base identifier not set (or empty), a listing or detail
  request, that is a \<^verbatim>\<open>GET\<close> with or without a slug, is answered 500 with the message
  about the configuration, and the run issues no store call.
\<close>

theorem missing_configuration_500:
  assumes "http_method req = Some ''GET''"
    and "unset (AIRTABLE_API_KEY env) \<or> unset (AIRTABLE_BASE_ID env)"
  shows "handler env store req = \<lparr>response = notConfigured, calls = [], caught = []\<rparr> \<and>
    statusCode notConfigured = 500 \<and>
    body notConfigured = error_body
      ''Airtable is not configured. Set AIRTABLE_API_KEY and AIRTABLE_BASE_ID in your Vercel project.''"
  using assms by (simp add: handler_def notConfigured_def)

theorem missing_configuration_500_witness:
  "http_method example_request = Some ''GET'' \<and>
   AIRTABLE_BASE_ID unconfigured_env = None \<and>
   handler unconfigured_env example_store example_request
     = \<lparr>response = notConfigured, calls = [], caught = []\<rparr> \<and>
   handler unconfigured_env example_store listing_request
     = \<lparr>response = notConfigured, calls = [], caught = []\<rparr>"
proof -
  have m: "http_method example_request = Some ''GET''" "http_method listing_request = Some ''GET''"
    by (simp_all add: example_request_def listing_request_def)
  have u: "unset (AIRTABLE_API_KEY unconfigured_env) \<or> unset (AIRTABLE_BASE_ID unconfigured_env)"
    by (simp add: unconfigured_env_def unset_def)
  show ?thesis
    using missing_configuration_500 [OF m(1) u, of example_store]
      missing_configuration_500 [OF m(2) u, of example_store] m(1)
    by (simp add: unconfigured_env_def)
qed





text \<open>
  C8. A run in which any issued store call is rejected ends in the response 500 with the
  body \<^verbatim>\<open>{"error": "Internal Server Error"}\<close>. The response is the same constant for every
  rejection reason, request and environment: two runs that fail with different reasons
  give identical responses, so nothing of the reason reaches the client.
\<close>

theorem upstream_failure_generic_500:
  assumes "c1 \<in> set (calls (handler env1 store1 req1))" and "store1 c1 = Inl reason1"
    and "c2 \<in> set (calls (handler env2 store2 req2))" and "store2 c2 = Inl reason2"
  shows "response (handler env1 store1 req1) = internalServerError \<and>
    response (handler env2 store2 req2) = response (handler env1 store1 req1) \<and>
    statusCode internalServerError = 500 \<and>
    body internalServerError = error_body ''Internal Server Error''"
  using rejected_call_500 [OF assms(1,2)] rejected_call_500 [OF assms(3,4)]
  by (simp add: internalServerError_def)

theorem upstream_failure_generic_500_witness:
  "failing_store (JObj [(''message'', JStr (js ''AUTHENTICATION_REQUIRED''))]) listCall
     \<noteq> failing_store (JStr (js ''socket hang up'')) (parentCall (escapeFormulaString example_slug)) \<and>
   response (handler example_env
       (failing_store (JObj [(''message'', JStr (js ''AUTHENTICATION_REQUIRED''))])) listing_request)
     = internalServerError \<and>
   response (handler example_env (failing_store (JStr (js ''socket hang up''))) example_request)
     = response (handler example_env
         (failing_store (JObj [(''message'', JStr (js ''AUTHENTICATION_REQUIRED''))])) listing_request)"
proof -
  have k: "\<not> unset (AIRTABLE_API_KEY example_env)" "\<not> unset (AIRTABLE_BASE_ID example_env)"
    by (simp_all add: example_env_def unset_def js_simps)
  have g: "http_method listing_request = Some ''GET''"
    by (simp add: listing_request_def)
  have q: "getQuery listing_request = Inr Map.empty"
    by (simp add: getQuery_def listing_request_def)
  have "handler example_env (failing_store (JObj [(''message'', JStr (js ''AUTHENTICATION_REQUIRED''))]))
      listing_request
      = finish (listing (failing_store (JObj [(''message'', JStr (js ''AUTHENTICATION_REQUIRED''))])))"
    by (rule handler_listing [OF g k q]) (simp add: trim_def)
  then have c1: "listCall \<in> set (calls (handler example_env
      (failing_store (JObj [(''message'', JStr (js ''AUTHENTICATION_REQUIRED''))])) listing_request))"
    by (simp add: calls_finish calls_listing)
  have t: "trim (case [js ''slug'' \<mapsto> 0x20 # example_slug @ [0x20]] (js ''slug'') of
             None \<Rightarrow> [] | Some v \<Rightarrow> v) = example_slug"
    by (simp add: example_trim)
  have n: "example_slug \<noteq> []"
    by (simp add: example_slug_def js_simps)
  have g': "http_method example_request = Some ''GET''"
    by (simp add: example_request_def)
  have "handler example_env (failing_store (JStr (js ''socket hang up''))) example_request
      = finish (detailPath (failing_store (JStr (js ''socket hang up''))) example_slug)"
    by (rule handler_detail [OF g' k example_query t n])
  then have c2: "parentCall (escapeFormulaString example_slug) \<in> set (calls (handler example_env
      (failing_store (JStr (js ''socket hang up''))) example_request))"
    by (simp add: calls_finish detailPath_def failing_store_def)
  have d: "failing_store (JObj [(''message'', JStr (js ''AUTHENTICATION_REQUIRED''))]) listCall
     \<noteq> failing_store (JStr (js ''socket hang up'')) (parentCall (escapeFormulaString example_slug))"
    by (simp add: failing_store_def)
  show ?thesis
    using d upstream_failure_generic_500 [OF c1 _ c2, of _ "JStr (js ''socket hang up'')"]
    by (simp add: failing_store_def)
qed

text \<open>
  C9. When the \<^verbatim>\<open>slug\<close> parameter is absent, empty or white space only, the handler issues
  the listing call and nothing else, without any filter formula, and answers with the
  items of the records returned (or with the generic 500 when the listing call is
  rejected); the answer is never a 404.
\<close>

theorem blank_slug_takes_listing_path:
  assumes "http_method req = Some ''GET''"
    and "\<not> unset (AIRTABLE_API_KEY env)" and "\<not> unset (AIRTABLE_BASE_ID env)"
    and "getQuery req = Inr query"
    and "query (js ''slug'') = None \<or>
         (\<exists>v. query (js ''slug'') = Some v \<and> (\<forall>c\<in>set v. isWhiteSpace c))"
  shows "calls (handler env store req) = [listCall] \<and>
    filterByFormula (params listCall) = None \<and>
    response (handler env store req) =
      (case store listCall of
         Inl reason \<Rightarrow> internalServerError
       | Inr records \<Rightarrow> ok (JObj [(''items'', JArr (map listItem records))])) \<and>
    statusCode (response (handler env store req)) \<noteq> 404"
proof -
  have "trim (case query (js ''slug'') of None \<Rightarrow> [] | Some v \<Rightarrow> v) = []"
    using assms(5) by (auto simp: trim_empty_iff)
  then have "handler env store req = finish (listing store)"
    using assms(1-4) by (rule handler_listing [rotated 4])
  then show ?thesis
    by (simp add: calls_finish response_finish listing_def listCall_def ok_def
        internalServerError_def split: sum.splits)
qed

theorem blank_slug_takes_listing_path_witness:
  "calls (handler example_env example_store blank_request) = [listCall] \<and>
   response (handler example_env example_store blank_request)
     = ok (JObj [(''items'', JArr [listItem example_program])]) \<and>
   calls (handler example_env example_store listing_request) = [listCall]"
proof -
  have k: "\<not> unset (AIRTABLE_API_KEY example_env)" "\<not> unset (AIRTABLE_BASE_ID example_env)"
    by (simp_all add: example_env_def unset_def js_simps)
  have g1: "http_method blank_request = Some ''GET''"
    by (simp add: blank_request_def)
  have q1: "getQuery blank_request = Inr [js ''slug'' \<mapsto> [0x20, 0x09, 0x3000]]"
    by (simp add: getQuery_def blank_request_def js_simps)
  have b1: "[js ''slug'' \<mapsto> [0x20, 0x09, 0x3000]] (js ''slug'') = None \<or>
      (\<exists>v. [js ''slug'' \<mapsto> [0x20, 0x09, 0x3000]] (js ''slug'') = Some v \<and>
         (\<forall>c\<in>set v. isWhiteSpace c))"
    by (simp add: isWhiteSpace_def)
  have g2: "http_method listing_request = Some ''GET''"
    by (simp add: listing_request_def)
  have q2: "getQuery listing_request = Inr Map.empty"
    by (simp add: getQuery_def listing_request_def)
  have b2: "Map.empty (js ''slug'') = None \<or>
      (\<exists>v. Map.empty (js ''slug'') = Some v \<and> (\<forall>c\<in>set v. isWhiteSpace c))"
    by simp
  have s: "example_store listCall = Inr [example_program]"
    by (simp add: example_store_def listCall_def)
  show ?thesis
    using blank_slug_takes_listing_path [OF g1 k q1 b1, of example_store]
      blank_slug_takes_listing_path [OF g2 k q2 b2, of example_store] s
    by simp
qed

text \<open>
  C10. When the first element of the attachment list has no truthy \<^verbatim>\<open>url\<close>, the result is
  \<^verbatim>\<open>undefined\<close> whatever the later elements hold; when the attachment field holds a value
  that is no array, the result is \<^verbatim>\<open>undefined\<close> too. In both cases nothing is thrown, and
  the url resolved for a record without a link string is \<^verbatim>\<open>undefined\<close>.
\<close>

theorem firstAttachmentUrl_undefined:
  "(get_url_optional first = Inr u \<longrightarrow> \<not> truthy u \<longrightarrow>
      firstAttachmentUrl (JArr (first # rest)) = Inr JUndefined \<and>
      (\<not> (is_string link \<and> truthy link) \<longrightarrow> resolveUrl link (JArr (first # rest)) = Inr JUndefined)) \<and>
   (\<not> isArray attachments \<longrightarrow>
      firstAttachmentUrl attachments = Inr JUndefined \<and>
      (\<not> (is_string link \<and> truthy link) \<longrightarrow> resolveUrl link attachments = Inr JUndefined))"
proof (intro conjI impI)
  show a: "firstAttachmentUrl (JArr (first # rest)) = Inr JUndefined"
    if "get_url_optional first = Inr u" "\<not> truthy u"
    using that by (simp add: firstAttachmentUrl_first)
  show "resolveUrl link (JArr (first # rest)) = Inr JUndefined"
    if "get_url_optional first = Inr u" "\<not> truthy u" "\<not> (is_string link \<and> truthy link)"
    using resolveUrl_no_link [OF that(3) a [OF that(1,2)]] by simp
  show b: "firstAttachmentUrl attachments = Inr JUndefined" if "\<not> isArray attachments"
    using that by (rule firstAttachmentUrl_no_array)
  show "resolveUrl link attachments = Inr JUndefined"
    if "\<not> isArray attachments" "\<not> (is_string link \<and> truthy link)"
    using resolveUrl_no_link [OF that(2) b [OF that(1)]] by simp
qed

theorem firstAttachmentUrl_undefined_witness:
  "firstAttachmentUrl (JArr [JObj [(''filename'', JStr (js ''a.pdf''))],
                             JObj [(''url'', JStr (js ''https://x/2''))]]) = Inr JUndefined \<and>
   firstAttachmentUrl (JArr [JNull, JObj [(''url'', JStr (js ''https://x/2''))]]) = Inr JUndefined \<and>
   firstAttachmentUrl (JObj [(''url'', JStr (js ''https://x/2''))]) = Inr JUndefined \<and>
   resolveUrl JUndefined (JStr (js ''https://x/2'')) = Inr JUndefined"
proof -
  let ?g = "JObj [(''url'', JStr (js ''https://x/2''))]"
  let ?n = "JObj [(''filename'', JStr (js ''a.pdf''))]"
  have 1: "get_url_optional ?n = Inr JUndefined" "get_url_optional JNull = Inr JUndefined"
    "\<not> truthy JUndefined"
    by simp_all
  have 2: "\<not> isArray ?g" "\<not> isArray (JStr (js ''https://x/2''))"
    "\<not> (is_string JUndefined \<and> truthy JUndefined)"
    by simp_all
  show ?thesis
    using firstAttachmentUrl_undefined [of ?n JUndefined "[?g]"]
      firstAttachmentUrl_undefined [of JNull JUndefined "[?g]"]
      firstAttachmentUrl_undefined [of _ _ _ _ ?g]
      firstAttachmentUrl_undefined [of _ _ _ JUndefined "JStr (js ''https://x/2'')"] 1 2
    by blast
qed

end
